theory Spec2Isabelle
  imports Complex_Main "HOL-Library.AList" "HOL-Library.Multiset"
begin

section \<open>Python values and objects\<close>

text \<open>
  A rating is a Python number: an \<open>int\<close> when it comes from \<open>Player.__init__\<close>'s default
  or from \<open>int(elo)\<close> in the CSV loader, a \<open>float\<close> once \<open>calculate_elo\<close> has run.
  In the model of a session, float arithmetic is idealised as arithmetic on the reals:
  rounding and overflow of IEEE doubles are not modelled there. The two rating
  functions are given in binary64 arithmetic as well, further down.
\<close>

datatype pynum = PyInt int | PyFloat real

fun num_val :: "pynum \<Rightarrow> real" where
  "num_val (PyInt n) = of_int n"
| "num_val (PyFloat x) = x"

text \<open>
  A player id is \<open>len(queue.players)\<close> (an int) when the player is added at the prompt and
  the CSV field (a str) when the player is loaded.
\<close>

datatype pyid = IdInt int | IdStr string

datatype py_error =
  AttributeError | KeyError | IndexError | ValueError | TypeError | OverflowError

text \<open>
  What a call does: it returns a value, or it raises. Neither script catches the
  exceptions modelled here around the calls below, so a raise ends the session.
\<close>

datatype 'a result = Return 'a | Raise py_error

record Player =
  player_id :: pyid
  name :: string
  elo :: pynum
  availability :: bool
  match_history :: "(nat \<times> int) list"

definition Player_init :: "pyid \<Rightarrow> string \<Rightarrow> pynum \<Rightarrow> Player" where
  "Player_init i n e =
     \<lparr>player_id = i, name = n, elo = e, availability = True, match_history = []\<rparr>"

text \<open>
  Players are objects: a queue and a match hold references to them, and
  \<open>calculate_elo\<close> mutates the object both see. The store maps a reference to the object
  it points to.
\<close>

type_synonym ref = nat
type_synonym heap = "ref \<Rightarrow> Player"

section \<open>Rating model: \<open>Player.calculate_elo\<close>\<close>

text \<open>
  The two nested functions \<open>_elo_expectation\<close> and \<open>_elo_update\<close>, first as the formulas
  they spell out, evaluated in exact arithmetic (\<open>K\<close> is the parameter they close over).
\<close>

definition elo_expectation :: "real \<Rightarrow> real \<Rightarrow> real" where
  "elo_expectation player_elo opponent_elo =
     1 / (1 + 10 powr ((opponent_elo - player_elo) / 400))"

definition elo_update' :: "real \<Rightarrow> real \<Rightarrow> real \<Rightarrow> real \<Rightarrow> real" where
  "elo_update' K player_elo expected actual = player_elo + K * (actual - expected)"

text \<open>
  \<open>self.calculate_elo(opponent, outcome)\<close> with the default \<open>K = 32\<close>: only
  \<open>opponent.elo\<close> is read; \<open>self.elo\<close> and \<open>self.availability\<close> are written.
\<close>

definition calculate_elo :: "Player \<Rightarrow> Player \<Rightarrow> int \<Rightarrow> Player" where
  "calculate_elo self opponent outcome =
     (let expected = elo_expectation (num_val (elo self)) (num_val (elo opponent))
      in self\<lparr>elo := PyFloat (elo_update' 32 (num_val (elo self)) expected (of_int outcome)),
              availability := True\<rparr>)"

section \<open>Rating model in binary64 arithmetic\<close>






section \<open>Matches and the queue\<close>

text \<open>
  \<open>create_match\<close> is called with \<open>'singles'\<close> or \<open>'doubles'\<close> only. \<open>Match.players\<close> is
  a list of two players for singles and a list of two teams (lists of players) for
  doubles. The timestamp of the later scripts is supplied from outside and not modelled.
\<close>

datatype match_type = Singles | Doubles

datatype participants = Opponents ref ref | Teams "ref list" "ref list"

record Match =
  match_id :: nat
  match_players :: participants
  match_type :: match_type
  match_outcome :: "int option"
  match_score :: "string option"

definition Match_init :: "nat \<Rightarrow> participants \<Rightarrow> match_type \<Rightarrow> Match" where
  "Match_init i ps mt =
     \<lparr>match_id = i, match_players = ps, match_type = mt,
      match_outcome = None, match_score = None\<rparr>"


text \<open>
  The session state: the object store with its allocation pointer, and the two fields
  of \<open>Queue\<close>. \<open>players\<close> is a \<open>deque\<close> of players in \<^verbatim>\<open>v1.py\<close> and a \<open>dict\<close> from name to
  player, in insertion order, in \<^verbatim>\<open>v3.py\<close> and \<^verbatim>\<open>v4.py\<close>.
\<close>

record 'p Queue =
  heap :: heap
  next_ref :: ref
  players :: 'p
  matches :: "Match list"

type_synonym deque = "ref list"
type_synonym registry = "(string \<times> ref) list"

definition heap_init :: heap where
  "heap_init = (\<lambda>_. Player_init (IdStr ''temp'') ''temp'' (PyInt 1200))"


definition alloc :: "Player \<Rightarrow> 'p Queue \<Rightarrow> ref \<times> 'p Queue" where
  "alloc p q = (next_ref q, q\<lparr>heap := (heap q)(next_ref q := p), next_ref := Suc (next_ref q)\<rparr>)"

definition elo_of :: "heap \<Rightarrow> ref \<Rightarrow> real" where
  "elo_of h r = num_val (elo (h r))"

section \<open>Recording an outcome: the rating block of \<open>prompt_user\<close>\<close>

text \<open>
  Singles: \<open>players[0].calculate_elo(players[1], outcome)\<close>, then
  \<open>players[1].calculate_elo(players[0], 1 - outcome)\<close>; the second call reads the object
  the first call has written.
\<close>

definition singles_update :: "ref \<Rightarrow> ref \<Rightarrow> int \<Rightarrow> heap \<Rightarrow> heap" where
  "singles_update p1 p2 oc h =
     (let h1 = h(p1 := calculate_elo (h p1) (h p2) oc)
      in h1(p2 := calculate_elo (h1 p2) (h1 p1) (1 - oc)))"

text \<open>\<open>for player in team: player.calculate_elo(opponent, outcome)\<close>\<close>

fun team_update :: "ref list \<Rightarrow> Player \<Rightarrow> int \<Rightarrow> heap \<Rightarrow> heap" where
  "team_update [] opponent oc h = h"
| "team_update (p # ps) opponent oc h =
     team_update ps opponent oc (h(p := calculate_elo (h p) opponent oc))"

definition doubles_update :: "ref list \<Rightarrow> ref list \<Rightarrow> int \<Rightarrow> heap \<Rightarrow> heap" where
  "doubles_update t1 t2 oc h =
     (let team1_avg_elo = sum_list (map (elo_of h) t1) / 2;
          team2_avg_elo = sum_list (map (elo_of h) t2) / 2;
          temp_player_team2 = Player_init (IdStr ''temp'') ''temp'' (PyFloat team2_avg_elo);
          temp_player_team1 = Player_init (IdStr ''temp'') ''temp'' (PyFloat team1_avg_elo)
      in team_update t2 temp_player_team1 (1 - oc) (team_update t1 temp_player_team2 oc h))"

text \<open>
  \<open>if match.match_type == 'singles': ... else: ...\<close>. A match whose \<open>players\<close> has the
  other shape raises: a list has no \<open>calculate_elo\<close>, a player is not iterable.
\<close>

definition update_ratings :: "Match \<Rightarrow> int \<Rightarrow> heap \<Rightarrow> heap result" where
  "update_ratings m oc h =
     (if match_type m = Singles then
        (case match_players m of
           Opponents p1 p2 \<Rightarrow> Return (singles_update p1 p2 oc h)
         | Teams t1 t2 \<Rightarrow> Raise AttributeError)
      else
        (case match_players m of
           Teams t1 t2 \<Rightarrow> Return (doubles_update t1 t2 oc h)
         | Opponents p1 p2 \<Rightarrow> Raise TypeError))"

section \<open>\<^verbatim>\<open>v1.py\<close>: the queue as a deque\<close>

definition add_player_v1 :: "ref \<Rightarrow> deque Queue \<Rightarrow> deque Queue" where
  "add_player_v1 r q =
     (if availability (heap q r)
      then q\<lparr>players := sort_key (elo_of (heap q)) (players q @ [r])\<rparr>
      else q)"

text \<open>\<open>deque.remove(x)\<close> removes the first occurrence and raises ValueError without one.\<close>

definition deque_remove :: "ref \<Rightarrow> deque \<Rightarrow> deque result" where
  "deque_remove r ps = (if r \<in> set ps then Return (remove1 r ps) else Raise ValueError)"

fun deque_remove_all :: "ref list \<Rightarrow> deque \<Rightarrow> deque result" where
  "deque_remove_all [] ps = Return ps"
| "deque_remove_all (r # rs) ps =
     (case deque_remove r ps of
        Raise e \<Rightarrow> Raise e
      | Return ps' \<Rightarrow> deque_remove_all rs ps')"

fun set_unavailable :: "ref list \<Rightarrow> heap \<Rightarrow> heap" where
  "set_unavailable [] h = h"
| "set_unavailable (r # rs) h = set_unavailable rs (h(r := (h r)\<lparr>availability := False\<rparr>))"

text \<open>
  \<open>diff < min_diff\<close>, where \<open>min_diff\<close> starts as \<open>float('inf')\<close> (\<open>None\<close> here) and the
  selection starts as \<open>None\<close>.
\<close>

fun below :: "real \<Rightarrow> (real \<times> 'a) option \<Rightarrow> bool" where
  "below d None = True"
| "below d (Some (min_diff, _)) = (d < min_diff)"

text \<open>The singles loop over \<open>range(len(players_sorted) - 1)\<close>, adjacent pairs in order.\<close>

fun closest_pair ::
  "heap \<Rightarrow> ref list \<Rightarrow> (real \<times> ref \<times> ref) option \<Rightarrow> (real \<times> ref \<times> ref) option" where
  "closest_pair h (x # y # rest) best =
     closest_pair h (y # rest)
       (if below \<bar>elo_of h x - elo_of h y\<bar> best
        then Some (\<bar>elo_of h x - elo_of h y\<bar>, x, y) else best)"
| "closest_pair h rest best = best"

text \<open>The doubles loops: \<open>i < j < k < l\<close> in nested ascending order.\<close>

definition quads :: "nat \<Rightarrow> (nat \<times> nat \<times> nat \<times> nat) list" where
  "quads n = [(i, j, k, l). i \<leftarrow> [0..<n], j \<leftarrow> [i + 1..<n], k \<leftarrow> [j + 1..<n], l \<leftarrow> [k + 1..<n]]"

fun best_quad ::
  "heap \<Rightarrow> ref list \<Rightarrow> (nat \<times> nat \<times> nat \<times> nat) list \<Rightarrow>
   (real \<times> ref \<times> ref \<times> ref \<times> ref) option \<Rightarrow> (real \<times> ref \<times> ref \<times> ref \<times> ref) option" where
  "best_quad h ps [] best = best"
| "best_quad h ps ((i, j, k, l) # rest) best =
     (let diff = \<bar>(elo_of h (ps ! i) + elo_of h (ps ! j)) - (elo_of h (ps ! k) + elo_of h (ps ! l))\<bar>
      in best_quad h ps rest
           (if below diff best then Some (diff, ps ! i, ps ! j, ps ! k, ps ! l) else best))"

text \<open>
  \<open>team1 = [p1, p2] if p1.elo + p2.elo > p3.elo + p4.elo else [p1, p3]\<close> and
  \<open>team2 = list(set([p1, p2, p3, p4]) - set(team1))\<close>. Python leaves the order of
  \<open>team2\<close> open; here it is the order of \<open>p1, p2, p3, p4\<close>, and only its set is used
  in what follows.
\<close>

definition assign_teams :: "heap \<Rightarrow> ref \<Rightarrow> ref \<Rightarrow> ref \<Rightarrow> ref \<Rightarrow> participants" where
  "assign_teams h p1 p2 p3 p4 =
     (let team1 = (if elo_of h p1 + elo_of h p2 > elo_of h p3 + elo_of h p4
                   then [p1, p2] else [p1, p3]);
          team2 = remdups (filter (\<lambda>p. p \<notin> set team1) [p1, p2, p3, p4])
      in Teams team1 team2)"

text \<open>\<open>sorted(self.players, key=lambda x: x.elo)\<close>: ascending and stable.\<close>

definition players_sorted_v1 :: "deque Queue \<Rightarrow> ref list" where
  "players_sorted_v1 q = sort_key (elo_of (heap q)) (players q)"

text \<open>
  \<open>Queue.create_match\<close> of \<^verbatim>\<open>v1.py\<close>. With no selection, \<open>p1\<close> is still \<open>None\<close> and
  \<open>p1.availability = False\<close> raises AttributeError.
\<close>

definition create_match_v1 ::
  "match_type \<Rightarrow> deque Queue \<Rightarrow> (Match option \<times> deque Queue) result" where
  "create_match_v1 mt q =
     (if length (players q) < 2 then Return (None, q)
      else
        (case mt of
           Singles \<Rightarrow>
             (case closest_pair (heap q) (players_sorted_v1 q) None of
                None \<Rightarrow> Raise AttributeError
              | Some (min_diff, p1, p2) \<Rightarrow>
                  (let h = set_unavailable [p1, p2] (heap q) in
                   case deque_remove_all [p1, p2] (players q) of
                     Raise e \<Rightarrow> Raise e
                   | Return ps \<Rightarrow>
                       (let m = Match_init (length (matches q)) (Opponents p1 p2) Singles
                        in Return (Some m,
                             q\<lparr>heap := h, players := ps, matches := matches q @ [m]\<rparr>))))
         | Doubles \<Rightarrow>
             (case best_quad (heap q) (players_sorted_v1 q)
                     (quads (length (players_sorted_v1 q))) None of
                None \<Rightarrow> Raise AttributeError
              | Some (min_diff, p1, p2, p3, p4) \<Rightarrow>
                  (let h = set_unavailable [p1, p2, p3, p4] (heap q) in
                   case deque_remove_all [p1, p2, p3, p4] (players q) of
                     Raise e \<Rightarrow> Raise e
                   | Return ps \<Rightarrow>
                       (let m = Match_init (length (matches q))
                                  (assign_teams h p1 p2 p3 p4) Doubles
                        in Return (Some m,
                             q\<lparr>heap := h, players := ps, matches := matches q @ [m]\<rparr>))))))"

text \<open>
  \<open>Match.record_outcome\<close> of \<^verbatim>\<open>v1.py\<close>: it sets the outcome, then appends to the history
  of every element of \<open>self.players\<close>. For a doubles match the elements are the two team
  lists, which have no \<open>match_history\<close>.
\<close>

fun append_history :: "ref list \<Rightarrow> nat \<times> int \<Rightarrow> heap \<Rightarrow> heap" where
  "append_history [] e h = h"
| "append_history (r # rs) e h =
     append_history rs e (h(r := (h r)\<lparr>match_history := match_history (h r) @ [e]\<rparr>))"

definition record_outcome_v1 :: "Match \<Rightarrow> int \<Rightarrow> heap \<Rightarrow> (Match \<times> heap) result" where
  "record_outcome_v1 m oc h =
     (case match_players m of
        Opponents p1 p2 \<Rightarrow>
          Return (m\<lparr>match_outcome := Some oc\<rparr>, append_history [p1, p2] (match_id m, oc) h)
      | Teams t1 t2 \<Rightarrow> Raise AttributeError)"

text \<open>
  Choice 5 of \<open>prompt_user\<close> in \<^verbatim>\<open>v1.py\<close>: \<open>queue.matches[match_id]\<close> is a plain list
  index (a negative one counts from the end, one out of range raises IndexError).
\<close>

definition list_position :: "nat \<Rightarrow> int \<Rightarrow> nat result" where
  "list_position n i =
     (let j = (if i < 0 then int n + i else i)
      in if 0 \<le> j \<and> j < int n then Return (nat j) else Raise IndexError)"

definition prompt_record_outcome_v1 :: "int \<Rightarrow> int \<Rightarrow> deque Queue \<Rightarrow> deque Queue result" where
  "prompt_record_outcome_v1 mid oc q =
     (case list_position (length (matches q)) mid of
        Raise e \<Rightarrow> Raise e
      | Return i \<Rightarrow>
          (case record_outcome_v1 (matches q ! i) oc (heap q) of
             Raise e \<Rightarrow> Raise e
           | Return (m, h) \<Rightarrow>
               (case update_ratings m oc h of
                  Raise e \<Rightarrow> Raise e
                | Return h' \<Rightarrow> Return (q\<lparr>heap := h', matches := (matches q)[i := m]\<rparr>))))"

section \<open>\<^verbatim>\<open>v4.py\<close> (and \<^verbatim>\<open>v3.py\<close>): the queue as a dict keyed by name\<close>

text \<open>\<open>self.players[player.name] = player\<close>: a present key keeps its place and gets the new value.\<close>

definition add_player :: "ref \<Rightarrow> registry Queue \<Rightarrow> registry Queue" where
  "add_player r q = q\<lparr>players := AList.update (name (heap q r)) r (players q)\<rparr>"

text \<open>
  Choice 1 of \<open>prompt_user\<close>: \<open>player = Player(len(queue.players), name)\<close>, then
  \<open>queue.add_player(player)\<close>.
\<close>

definition prompt_add_player :: "string \<Rightarrow> registry Queue \<Rightarrow> registry Queue" where
  "prompt_add_player n q =
     (let (r, q') = alloc (Player_init (IdInt (int (length (players q)))) n (PyInt 1200)) q
      in add_player r q')"

text \<open>\<open>del self.players[player_name]\<close> raises KeyError for an absent key.\<close>

definition remove_player :: "string \<Rightarrow> registry Queue \<Rightarrow> registry Queue result" where
  "remove_player player_name q =
     (case map_of (players q) player_name of
        None \<Rightarrow> Raise KeyError
      | Some r \<Rightarrow> Return (q\<lparr>players := AList.delete player_name (players q)\<rparr>))"

fun remove_players :: "string list \<Rightarrow> registry Queue \<Rightarrow> registry Queue result" where
  "remove_players [] q = Return q"
| "remove_players (n # ns) q =
     (case remove_player n q of
        Raise e \<Rightarrow> Raise e
      | Return q' \<Rightarrow> remove_players ns q')"

text \<open>
  Choices 2 and 6 of \<open>prompt_user\<close> look a name up with \<open>name in queue.players\<close> and print
  "Player not found." (\<open>None\<close> here) when it is absent.
\<close>

definition find_player :: "string \<Rightarrow> registry Queue \<Rightarrow> ref option" where
  "find_player player_name q = map_of (players q) player_name"

text \<open>
  \<open>sorted(self.players.values(), key=lambda x: x.elo, reverse=True)\<close> is stable: players of
  equal rating keep the order of the dict, as sorting on the negated key does.
\<close>

definition players_sorted :: "registry Queue \<Rightarrow> ref list" where
  "players_sorted q = sort_key (\<lambda>r. - elo_of (heap q) r) (map snd (players q))"

text \<open>\<open>Queue.create_match\<close> of \<^verbatim>\<open>v4.py\<close>.\<close>

definition create_match ::
  "match_type \<Rightarrow> registry Queue \<Rightarrow> (Match option \<times> registry Queue) result" where
  "create_match mt q =
     (if length (players q) < 2 then Return (None, q)
      else
        (case mt of
           Singles \<Rightarrow>
             (case players_sorted q of
                p1 # p2 # rest \<Rightarrow>
                  (let m = Match_init (length (matches q)) (Opponents p1 p2) Singles in
                   case remove_players [name (heap q p1), name (heap q p2)] q of
                     Raise e \<Rightarrow> Raise e
                   | Return q' \<Rightarrow> Return (Some m, q'\<lparr>matches := matches q' @ [m]\<rparr>))
              | _ \<Rightarrow> Raise IndexError)
         | Doubles \<Rightarrow>
             (if length (players q) < 4 then Return (None, q)
              else
                (case players_sorted q of
                   p1 # p2 # p3 # p4 # rest \<Rightarrow>
                     (let m = Match_init (length (matches q)) (Teams [p1, p2] [p3, p4]) Doubles in
                      case remove_players
                             [name (heap q p1), name (heap q p2),
                              name (heap q p3), name (heap q p4)] q of
                        Raise e \<Rightarrow> Raise e
                      | Return q' \<Rightarrow> Return (Some m, q'\<lparr>matches := matches q' @ [m]\<rparr>))
                 | _ \<Rightarrow> Raise IndexError))))"

text \<open>
  Choice 5 of \<open>prompt_user\<close> in \<^verbatim>\<open>v4.py\<close>: an id outside \<open>range(len(queue.matches))\<close>
  prints "Invalid match id." and changes nothing; \<open>match.record_outcome\<close> is commented
  out, so only the ratings and the score are written.
\<close>

definition prompt_record_outcome ::
  "int \<Rightarrow> int \<Rightarrow> string \<Rightarrow> registry Queue \<Rightarrow> registry Queue result" where
  "prompt_record_outcome mid oc sc q =
     (if \<not> (0 \<le> mid \<and> mid < int (length (matches q))) then Return q
      else
        (let m = matches q ! nat mid in
         case update_ratings m oc (heap q) of
           Raise e \<Rightarrow> Raise e
         | Return h \<Rightarrow>
             Return (q\<lparr>heap := h, matches := (matches q)[nat mid := m\<lparr>match_score := Some sc\<rparr>]\<rparr>)))"

section \<open>\<^verbatim>\<open>v4.py\<close>: saving and loading the players\<close>













section \<open>Notions used in the statements\<close>

text \<open>
  The rating gap of the adjacent pair at positions \<open>i\<close> and \<open>i + 1\<close> of a list of players.
\<close>

definition gap :: "heap \<Rightarrow> ref list \<Rightarrow> nat \<Rightarrow> real" where
  "gap h ps i = \<bar>elo_of h (ps ! i) - elo_of h (ps ! Suc i)\<bar>"

text \<open>
  Both pairing loops of \<^verbatim>\<open>v1.py\<close> scan a sequence of candidates and keep the first one
  of least difference; \<open>first_min\<close> is that scan over an explicit candidate list and
  \<open>adjacent\<close> the candidate list of the singles loop.
\<close>

fun first_min :: "(real \<times> 'a) list \<Rightarrow> (real \<times> 'a) option \<Rightarrow> (real \<times> 'a) option" where
  "first_min [] best = best"
| "first_min (c # cs) best = first_min cs (if below (fst c) best then Some c else best)"

fun adjacent :: "heap \<Rightarrow> ref list \<Rightarrow> (real \<times> ref \<times> ref) list" where
  "adjacent h (x # y # rest) = (\<bar>elo_of h x - elo_of h y\<bar>, x, y) # adjacent h (y # rest)"
| "adjacent h rest = []"

text \<open>
  The difference the doubles loop computes for the fixed split of four positions, and the
  candidate it would store for them.
\<close>

fun split_diff :: "heap \<Rightarrow> ref list \<Rightarrow> nat \<times> nat \<times> nat \<times> nat \<Rightarrow> real" where
  "split_diff h ps (i, j, k, l) =
     \<bar>(elo_of h (ps ! i) + elo_of h (ps ! j)) - (elo_of h (ps ! k) + elo_of h (ps ! l))\<bar>"

fun quad_candidate ::
  "heap \<Rightarrow> ref list \<Rightarrow> nat \<times> nat \<times> nat \<times> nat \<Rightarrow> real \<times> ref \<times> ref \<times> ref \<times> ref" where
  "quad_candidate h ps (i, j, k, l) = (split_diff h ps (i, j, k, l), ps ! i, ps ! j, ps ! k, ps ! l)"

text \<open>
  What the dict of \<^verbatim>\<open>v4.py\<close> always satisfies: keys are unique, and every player is
  stored under its own name (\<open>add_player\<close> is the only writer).
\<close>

definition registry_ok :: "registry Queue \<Rightarrow> bool" where
  "registry_ok q =
     (distinct (map fst (players q)) \<and> list_all (\<lambda>(n, r). name (heap q r) = n) (players q))"

section \<open>Example sessions\<close>

text \<open>Three players A, B and C rated 1000, 1005 and 1200, in a \<^verbatim>\<open>v1.py\<close> and a \<^verbatim>\<open>v4.py\<close> queue.\<close>

definition heap_three :: heap where
  "heap_three = heap_init
     (0 := Player_init (IdStr ''0'') ''A'' (PyInt 1000),
      1 := Player_init (IdStr ''1'') ''B'' (PyInt 1005),
      2 := Player_init (IdStr ''2'') ''C'' (PyInt 1200))"

definition deque_three :: "deque Queue" where
  "deque_three = \<lparr>heap = heap_three, next_ref = 3, players = [0, 1, 2], matches = []\<rparr>"

definition registry_three :: "registry Queue" where
  "registry_three =
     \<lparr>heap = heap_three, next_ref = 3,
      players = [(''A'', 0), (''B'', 1), (''C'', 2)], matches = []\<rparr>"

text \<open>
  Four players in a \<^verbatim>\<open>v1.py\<close> queue: rated 1000, 1100, 1200 and 1300, and all rated 1000.
\<close>

definition deque_four :: "deque Queue" where
  "deque_four =
     \<lparr>heap = heap_init
        (0 := Player_init (IdStr ''0'') ''A'' (PyInt 1000),
         1 := Player_init (IdStr ''1'') ''B'' (PyInt 1100),
         2 := Player_init (IdStr ''2'') ''C'' (PyInt 1200),
         3 := Player_init (IdStr ''3'') ''D'' (PyInt 1300)),
      next_ref = 4, players = [0, 1, 2, 3], matches = []\<rparr>"

definition deque_four_equal :: "deque Queue" where
  "deque_four_equal =
     \<lparr>heap = heap_init
        (0 := Player_init (IdStr ''0'') ''A'' (PyInt 1000),
         1 := Player_init (IdStr ''1'') ''B'' (PyInt 1000),
         2 := Player_init (IdStr ''2'') ''C'' (PyInt 1000),
         3 := Player_init (IdStr ''3'') ''D'' (PyInt 1000)),
      next_ref = 4, players = [0, 1, 2, 3], matches = []\<rparr>"

text \<open>Two players A and B, both rated 1200, in a \<^verbatim>\<open>v4.py\<close> queue.\<close>

definition registry_pair :: "registry Queue" where
  "registry_pair =
     \<lparr>heap = heap_init
        (0 := Player_init (IdStr ''0'') ''A'' (PyInt 1200),
         1 := Player_init (IdStr ''1'') ''B'' (PyInt 1200)),
      next_ref = 2, players = [(''A'', 0), (''B'', 1)], matches = []\<rparr>"

text \<open>
  Four players A, B, C and D rated 1000, 1100, 1200 and 1300 in a \<^verbatim>\<open>v4.py\<close> queue, and
  the queue after \<open>create_match('doubles')\<close>.
\<close>

definition registry_four :: "registry Queue" where
  "registry_four =
     \<lparr>heap = heap_init
        (0 := Player_init (IdStr ''0'') ''A'' (PyInt 1000),
         1 := Player_init (IdStr ''1'') ''B'' (PyInt 1100),
         2 := Player_init (IdStr ''2'') ''C'' (PyInt 1200),
         3 := Player_init (IdStr ''3'') ''D'' (PyInt 1300)),
      next_ref = 4,
      players = [(''A'', 0), (''B'', 1), (''C'', 2), (''D'', 3)], matches = []\<rparr>"

definition registry_four_matched :: "registry Queue" where
  "registry_four_matched =
     registry_four\<lparr>players := [], matches := [Match_init 0 (Teams [3, 2] [1, 0]) Doubles]\<rparr>"


section \<open>Rating model: properties\<close>


section \<open>The scan for the first minimum\<close>

lemma below_Some: "below d (Some c) = (d < fst c)"
  by (cases c) simp

lemma first_min_cases:
  "(first_min cs best = best \<and> (\<forall>j < length cs. \<not> below (fst (cs ! j)) best))
   \<or> (\<exists>i < length cs. first_min cs best = Some (cs ! i) \<and> below (fst (cs ! i)) best
        \<and> (\<forall>j < length cs. fst (cs ! i) \<le> fst (cs ! j))
        \<and> (\<forall>j < i. fst (cs ! i) < fst (cs ! j)))"
proof (induction cs arbitrary: best)
  case Nil
  then show ?case by simp
next
  case (Cons c cs)
  show ?case
  proof (cases "below (fst c) best")
    case True
    from Cons.IH [of "Some c"] show ?thesis
    proof (elim disjE conjE exE)
      assume a: "first_min cs (Some c) = Some c"
        and b: "\<forall>j<length cs. \<not> below (fst (cs ! j)) (Some c)"
      have "\<forall>j < length (c # cs). fst ((c # cs) ! 0) \<le> fst ((c # cs) ! j)"
        using b by (auto simp: below_Some nth_Cons split: nat.splits)
      with a True show ?thesis
        by (intro disjI2 exI [of _ 0]) simp
    next
      fix i
      assume i: "i < length cs" and a: "first_min cs (Some c) = Some (cs ! i)"
        and b: "below (fst (cs ! i)) (Some c)"
        and m: "\<forall>j<length cs. fst (cs ! i) \<le> fst (cs ! j)"
        and f: "\<forall>j<i. fst (cs ! i) < fst (cs ! j)"
      have lt: "fst (cs ! i) < fst c" using b by (simp add: below_Some)
      have 1: "below (fst (cs ! i)) best"
        using True lt by (cases best) auto
      have 2: "\<forall>j < length (c # cs). fst ((c # cs) ! Suc i) \<le> fst ((c # cs) ! j)"
        using m lt by (auto simp: nth_Cons split: nat.splits)
      have 3: "\<forall>j < Suc i. fst ((c # cs) ! Suc i) < fst ((c # cs) ! j)"
        using f lt by (auto simp: nth_Cons split: nat.splits)
      show ?thesis
        using i a True 1 2 3 by (intro disjI2 exI [of _ "Suc i"]) simp
    qed
  next
    case False
    from Cons.IH [of best] show ?thesis
    proof (elim disjE conjE exE)
      assume a: "first_min cs best = best"
        and b: "\<forall>j<length cs. \<not> below (fst (cs ! j)) best"
      have "\<forall>j < length (c # cs). \<not> below (fst ((c # cs) ! j)) best"
        using b False by (auto simp: nth_Cons split: nat.splits)
      with a False show ?thesis by simp
    next
      fix i
      assume i: "i < length cs" and a: "first_min cs best = Some (cs ! i)"
        and b: "below (fst (cs ! i)) best"
        and m: "\<forall>j<length cs. fst (cs ! i) \<le> fst (cs ! j)"
        and f: "\<forall>j<i. fst (cs ! i) < fst (cs ! j)"
      have lt: "fst (cs ! i) < fst c"
        using b False by (cases best) auto
      have 2: "\<forall>j < length (c # cs). fst ((c # cs) ! Suc i) \<le> fst ((c # cs) ! j)"
        using m lt by (auto simp: nth_Cons split: nat.splits)
      have 3: "\<forall>j < Suc i. fst ((c # cs) ! Suc i) < fst ((c # cs) ! j)"
        using f lt by (auto simp: nth_Cons split: nat.splits)
      show ?thesis
        using i a False b 2 3 by (intro disjI2 exI [of _ "Suc i"]) simp
    qed
  qed
qed

lemma first_min_None:
  assumes "cs \<noteq> []"
  shows "\<exists>i < length cs. first_min cs None = Some (cs ! i)
        \<and> (\<forall>j < length cs. fst (cs ! i) \<le> fst (cs ! j))
        \<and> (\<forall>j < i. fst (cs ! i) < fst (cs ! j))"
  using first_min_cases [of cs None] assms by auto

section \<open>Singles pairing in \<^verbatim>\<open>v1.py\<close>\<close>

lemma closest_pair_first_min: "closest_pair h ps best = first_min (adjacent h ps) best"
  by (induction h ps best rule: closest_pair.induct) simp_all

lemma length_adjacent: "length (adjacent h ps) = length ps - 1"
  by (induction h ps rule: adjacent.induct) simp_all

lemma nth_adjacent:
  "Suc i < length ps \<Longrightarrow>
   adjacent h ps ! i = (\<bar>elo_of h (ps ! i) - elo_of h (ps ! Suc i)\<bar>, ps ! i, ps ! Suc i)"
proof (induction h ps arbitrary: i rule: adjacent.induct)
  case (1 h x y rest)
  then show ?case by (cases i) simp_all
qed simp_all

lemma closest_pair_spec:
  assumes "2 \<le> length ps"
  shows "\<exists>i. Suc i < length ps
           \<and> closest_pair h ps None = Some (gap h ps i, ps ! i, ps ! Suc i)
           \<and> (\<forall>j. Suc j < length ps \<longrightarrow> gap h ps i \<le> gap h ps j)
           \<and> (\<forall>j < i. gap h ps i < gap h ps j)"
proof -
  let ?cs = "adjacent h ps"
  have len: "length ?cs = length ps - 1" by (rule length_adjacent)
  with assms have "?cs \<noteq> []" by (cases ?cs) auto
  from first_min_None [OF this] obtain i where i: "i < length ?cs"
    and r: "first_min ?cs None = Some (?cs ! i)"
    and m: "\<forall>j < length ?cs. fst (?cs ! i) \<le> fst (?cs ! j)"
    and f: "\<forall>j < i. fst (?cs ! i) < fst (?cs ! j)" by blast
  have si: "Suc i < length ps" using i len by simp
  have nth: "\<And>j. Suc j < length ps \<Longrightarrow> fst (?cs ! j) = gap h ps j"
    by (simp add: nth_adjacent gap_def)
  have 1: "closest_pair h ps None = Some (gap h ps i, ps ! i, ps ! Suc i)"
    using r si by (simp add: closest_pair_first_min nth_adjacent gap_def)
  have 2: "\<forall>j. Suc j < length ps \<longrightarrow> gap h ps i \<le> gap h ps j"
  proof (intro allI impI)
    fix j assume j: "Suc j < length ps"
    then have "j < length ?cs" using len by simp
    with m have "fst (?cs ! i) \<le> fst (?cs ! j)" by blast
    then show "gap h ps i \<le> gap h ps j" using nth [OF j] nth [OF si] by simp
  qed
  have 3: "\<forall>j < i. gap h ps i < gap h ps j"
  proof (intro allI impI)
    fix j assume j: "j < i"
    then have sj: "Suc j < length ps" using si by simp
    from f j have "fst (?cs ! i) < fst (?cs ! j)" by blast
    then show "gap h ps i < gap h ps j" using nth [OF sj] nth [OF si] by simp
  qed
  show ?thesis using si 1 2 3 by blast
qed

lemma deque_remove_all_two:
  "p1 \<in> set ps \<Longrightarrow> p2 \<in> set ps \<Longrightarrow> p1 \<noteq> p2 \<Longrightarrow>
   deque_remove_all [p1, p2] ps = Return (remove1 p2 (remove1 p1 ps))"
  by (simp add: deque_remove_def)

lemma create_match_v1_singles:
  assumes len: "2 \<le> length (players q)" and dist: "distinct (players q)"
  shows "\<exists>i. Suc i < length (players q)
     \<and> (let ps = players_sorted_v1 q;
            m = Match_init (length (matches q)) (Opponents (ps ! i) (ps ! Suc i)) Singles
        in create_match_v1 Singles q =
             Return (Some m,
               q\<lparr>heap := set_unavailable [ps ! i, ps ! Suc i] (heap q),
                 players := remove1 (ps ! Suc i) (remove1 (ps ! i) (players q)),
                 matches := matches q @ [m]\<rparr>)
         \<and> elo_of (heap q) (ps ! i) \<le> elo_of (heap q) (ps ! Suc i)
         \<and> (\<forall>j. Suc j < length ps \<longrightarrow> gap (heap q) ps i \<le> gap (heap q) ps j)
         \<and> (\<forall>j < i. gap (heap q) ps i < gap (heap q) ps j))"
proof -
  define ps where "ps = players_sorted_v1 q"
  have lps: "length ps = length (players q)" and sps: "set ps = set (players q)"
    and dps: "distinct ps" and sorted: "sorted (map (elo_of (heap q)) ps)"
    using dist by (simp_all add: ps_def players_sorted_v1_def)
  from closest_pair_spec [of ps "heap q"] len lps obtain i where si: "Suc i < length ps"
    and cp: "closest_pair (heap q) ps None = Some (gap (heap q) ps i, ps ! i, ps ! Suc i)"
    and m: "\<forall>j. Suc j < length ps \<longrightarrow> gap (heap q) ps i \<le> gap (heap q) ps j"
    and f: "\<forall>j < i. gap (heap q) ps i < gap (heap q) ps j" by auto
  have in1: "ps ! i \<in> set (players q)" and in2: "ps ! Suc i \<in> set (players q)"
    using si sps nth_mem [of i ps] nth_mem [of "Suc i" ps] by auto
  have ne: "ps ! i \<noteq> ps ! Suc i"
    using dps si by (simp add: nth_eq_iff_index_eq)
  have le: "elo_of (heap q) (ps ! i) \<le> elo_of (heap q) (ps ! Suc i)"
    using sorted_nth_mono [OF sorted, of i "Suc i"] si by simp
  have cm: "create_match_v1 Singles q =
      Return (Some (Match_init (length (matches q)) (Opponents (ps ! i) (ps ! Suc i)) Singles),
        q\<lparr>heap := set_unavailable [ps ! i, ps ! Suc i] (heap q),
          players := remove1 (ps ! Suc i) (remove1 (ps ! i) (players q)),
          matches := matches q @
            [Match_init (length (matches q)) (Opponents (ps ! i) (ps ! Suc i)) Singles]\<rparr>)"
    using len cp deque_remove_all_two [OF in1 in2 ne]
    by (simp add: create_match_v1_def ps_def [symmetric] Let_def del: deque_remove_all.simps set_unavailable.simps)
  show ?thesis
    using si lps cm le m f by (intro exI [of _ i]) (simp add: ps_def [symmetric] Let_def)
qed

section \<open>Singles pairing in \<^verbatim>\<open>v4.py\<close>\<close>

lemma registry_ok_lookup:
  assumes "registry_ok q" and "r \<in> snd ` set (players q)"
  shows "map_of (players q) (name (heap q r)) = Some r"
proof -
  from assms(2) obtain n where in_r: "(n, r) \<in> set (players q)" by force
  with assms(1) have "name (heap q r) = n"
    by (auto simp: registry_ok_def list_all_iff)
  with in_r assms(1) show ?thesis
    by (simp add: registry_ok_def)
qed

lemma registry_ok_names:
  assumes "registry_ok q"
  shows "map (\<lambda>r. name (heap q r)) (map snd (players q)) = map fst (players q)"
  using assms by (auto simp: registry_ok_def list_all_iff)

lemma registry_ok_distinct_names:
  assumes "registry_ok q"
  shows "distinct (map (\<lambda>r. name (heap q r)) (map snd (players q)))"
  using assms registry_ok_names [OF assms] by (simp only: registry_ok_def)

lemma remove_players_two:
  assumes "map_of (players q) n1 = Some r1" "map_of (players q) n2 = Some r2" "n1 \<noteq> n2"
  shows "remove_players [n1, n2] q =
           Return (q\<lparr>players := AList.delete n2 (AList.delete n1 (players q))\<rparr>)"
  using assms by (simp add: remove_player_def)

lemma players_sorted_props:
  "length (players_sorted q) = length (players q)"
  "set (players_sorted q) = snd ` set (players q)"
  "sorted (map (\<lambda>r. - elo_of (heap q) r) (players_sorted q))"
  by (simp_all add: players_sorted_def)

lemma players_sorted_distinct_names:
  assumes "registry_ok q"
  shows "distinct (map (\<lambda>r. name (heap q r)) (players_sorted q))"
proof -
  from registry_ok_distinct_names [OF assms]
  have "distinct (map snd (players q))"
    and "inj_on (\<lambda>r. name (heap q r)) (set (map snd (players q)))"
    by (simp_all only: distinct_map)
  then show ?thesis
    by (simp add: distinct_map players_sorted_def)
qed

lemma create_match_singles:
  assumes ok: "registry_ok q" and len: "2 \<le> length (players q)"
  shows "\<exists>p1 p2 rest. players_sorted q = p1 # p2 # rest
     \<and> create_match Singles q =
         Return (Some (Match_init (length (matches q)) (Opponents p1 p2) Singles),
           q\<lparr>players := AList.delete (name (heap q p2)) (AList.delete (name (heap q p1)) (players q)),
             matches := matches q @ [Match_init (length (matches q)) (Opponents p1 p2) Singles]\<rparr>)"
proof -
  from len players_sorted_props(1) [of q] obtain p1 p2 rest
    where ps: "players_sorted q = p1 # p2 # rest"
    by (cases "players_sorted q"; cases "tl (players_sorted q)") auto
  have mem: "p1 \<in> snd ` set (players q)" "p2 \<in> snd ` set (players q)"
    using players_sorted_props(2) [of q] ps by auto
  have ne: "name (heap q p1) \<noteq> name (heap q p2)"
    using players_sorted_distinct_names [OF ok] ps by simp
  have rm: "remove_players [name (heap q p1), name (heap q p2)] q =
      Return (q\<lparr>players := AList.delete (name (heap q p2)) (AList.delete (name (heap q p1)) (players q))\<rparr>)"
    by (rule remove_players_two [OF registry_ok_lookup [OF ok mem(1)] registry_ok_lookup [OF ok mem(2)] ne])
  have "create_match Singles q =
         Return (Some (Match_init (length (matches q)) (Opponents p1 p2) Singles),
           q\<lparr>players := AList.delete (name (heap q p2)) (AList.delete (name (heap q p1)) (players q)),
             matches := matches q @ [Match_init (length (matches q)) (Opponents p1 p2) Singles]\<rparr>)"
    using len ps rm
    by (simp add: create_match_def Let_def del: remove_players.simps)
  with ps show ?thesis by blast
qed

lemma players_sorted_top:
  assumes "players_sorted q = p1 # p2 # rest"
  shows "\<forall>r \<in> set (p2 # rest). elo_of (heap q) r \<le> elo_of (heap q) p1"
    and "\<forall>r \<in> set rest. elo_of (heap q) r \<le> elo_of (heap q) p2"
  using players_sorted_props(3) [of q] assms by auto

section \<open>Evaluating the model on the examples\<close>

lemmas eval_defs = Let_def Match_init_def Player_init_def heap_init_def elo_of_def sort_key_def
  players_sorted_def players_sorted_v1_def deque_remove_def remove_player_def

lemmas example_defs = heap_three_def deque_three_def registry_three_def

section \<open>C1: which pair singles pairing selects\<close>

text \<open>
  C1, as stated, fails on \<^verbatim>\<open>v4.py\<close> (and \<^verbatim>\<open>v3.py\<close>): on the pool rated 1000, 1005 and
  1200 its \<open>create_match('singles')\<close> selects the players rated 1200 and 1005, in that
  order, and leaves the player rated 1000; it does not select the pair 1000, 1005.
\<close>

theorem singles_pairing_counterexample:
  "(\<exists>q'. create_match Singles registry_three =
            Return (Some (Match_init 0 (Opponents 2 1) Singles), q')
          \<and> players q' = [(''A'', 0)]
          \<and> elo_of (heap q') 2 = 1200 \<and> elo_of (heap q') 1 = 1005 \<and> elo_of (heap q') 0 = 1000)
   \<and> \<not> (\<exists>q'. create_match Singles registry_three =
            Return (Some (Match_init 0 (Opponents 0 1) Singles), q'))"
  by (simp add: create_match_def example_defs eval_defs)

text \<open>
  C1, amended. In \<^verbatim>\<open>v1.py\<close>, for every pool of at least 2 distinct players, singles
  pairing sorts the pool ascending by rating (the sorted list holds exactly the players
  of the pool) and selects the adjacent pair of smallest
  rating gap, the first such pair in scan order; it returns the two in ascending order of
  rating, marks them unavailable and removes them from the pool. In particular, on the
  pool rated 1000, 1005 and 1200 it selects the players rated 1000 and 1005 and leaves the
  one rated 1200. In \<^verbatim>\<open>v4.py\<close>, singles pairing on a registry of at least 2 players
  instead selects the first two players of the pool sorted descending by rating (again
  a rearrangement of all the registered players), the two highest rated, and deletes
  them from the registry.
\<close>

theorem singles_pairing:
  assumes v1: "2 \<le> length (players q1)" "distinct (players q1)"
      and v4: "registry_ok q4" "2 \<le> length (players q4)"
  shows "(\<exists>i. Suc i < length (players q1)
            \<and> (let ps = players_sorted_v1 q1;
                   m = Match_init (length (matches q1)) (Opponents (ps ! i) (ps ! Suc i)) Singles
               in create_match_v1 Singles q1 =
                    Return (Some m,
                      q1\<lparr>heap := set_unavailable [ps ! i, ps ! Suc i] (heap q1),
                         players := remove1 (ps ! Suc i) (remove1 (ps ! i) (players q1)),
                         matches := matches q1 @ [m]\<rparr>)
                \<and> mset ps = mset (players q1)
                \<and> sorted (map (elo_of (heap q1)) ps)
                \<and> elo_of (heap q1) (ps ! i) \<le> elo_of (heap q1) (ps ! Suc i)
                \<and> (\<forall>j. Suc j < length ps \<longrightarrow> gap (heap q1) ps i \<le> gap (heap q1) ps j)
                \<and> (\<forall>j < i. gap (heap q1) ps i < gap (heap q1) ps j)))
       \<and> (\<exists>q'. create_match_v1 Singles deque_three =
                   Return (Some (Match_init 0 (Opponents 0 1) Singles), q')
               \<and> players q' = [2]
               \<and> elo_of (heap q') 0 = 1000 \<and> elo_of (heap q') 1 = 1005
               \<and> elo_of (heap q') 2 = 1200)
       \<and> (\<exists>p1 p2 rest. players_sorted q4 = p1 # p2 # rest
            \<and> mset (players_sorted q4) = mset (map snd (players q4))
            \<and> create_match Singles q4 =
                Return (Some (Match_init (length (matches q4)) (Opponents p1 p2) Singles),
                  q4\<lparr>players := AList.delete (name (heap q4 p2))
                                  (AList.delete (name (heap q4 p1)) (players q4)),
                     matches := matches q4 @
                       [Match_init (length (matches q4)) (Opponents p1 p2) Singles]\<rparr>)
            \<and> (\<forall>r \<in> set (p2 # rest). elo_of (heap q4) r \<le> elo_of (heap q4) p1)
            \<and> (\<forall>r \<in> set rest. elo_of (heap q4) r \<le> elo_of (heap q4) p2))"
proof (intro conjI)
  have sorted: "sorted (map (elo_of (heap q1)) (players_sorted_v1 q1))"
    by (simp add: players_sorted_v1_def)
  have perm: "mset (players_sorted_v1 q1) = mset (players q1)"
    by (simp add: players_sorted_v1_def)
  from create_match_v1_singles [OF v1] obtain i where "Suc i < length (players q1)"
    and "let ps = players_sorted_v1 q1;
            m = Match_init (length (matches q1)) (Opponents (ps ! i) (ps ! Suc i)) Singles
        in create_match_v1 Singles q1 =
             Return (Some m,
               q1\<lparr>heap := set_unavailable [ps ! i, ps ! Suc i] (heap q1),
                 players := remove1 (ps ! Suc i) (remove1 (ps ! i) (players q1)),
                 matches := matches q1 @ [m]\<rparr>)
         \<and> elo_of (heap q1) (ps ! i) \<le> elo_of (heap q1) (ps ! Suc i)
         \<and> (\<forall>j. Suc j < length ps \<longrightarrow> gap (heap q1) ps i \<le> gap (heap q1) ps j)
         \<and> (\<forall>j < i. gap (heap q1) ps i < gap (heap q1) ps j)"
    by blast
  with sorted perm show "\<exists>i. Suc i < length (players q1)
            \<and> (let ps = players_sorted_v1 q1;
                   m = Match_init (length (matches q1)) (Opponents (ps ! i) (ps ! Suc i)) Singles
               in create_match_v1 Singles q1 =
                    Return (Some m,
                      q1\<lparr>heap := set_unavailable [ps ! i, ps ! Suc i] (heap q1),
                         players := remove1 (ps ! Suc i) (remove1 (ps ! i) (players q1)),
                         matches := matches q1 @ [m]\<rparr>)
                \<and> mset ps = mset (players q1)
                \<and> sorted (map (elo_of (heap q1)) ps)
                \<and> elo_of (heap q1) (ps ! i) \<le> elo_of (heap q1) (ps ! Suc i)
                \<and> (\<forall>j. Suc j < length ps \<longrightarrow> gap (heap q1) ps i \<le> gap (heap q1) ps j)
                \<and> (\<forall>j < i. gap (heap q1) ps i < gap (heap q1) ps j))"
    by (intro exI [of _ i]) (simp add: Let_def)
next
  show "\<exists>q'. create_match_v1 Singles deque_three =
                   Return (Some (Match_init 0 (Opponents 0 1) Singles), q')
               \<and> players q' = [2]
               \<and> elo_of (heap q') 0 = 1000 \<and> elo_of (heap q') 1 = 1005
               \<and> elo_of (heap q') 2 = 1200"
    by (simp add: create_match_v1_def example_defs eval_defs)
next
  from create_match_singles [OF v4] obtain p1 p2 rest
    where ps: "players_sorted q4 = p1 # p2 # rest"
      and cm: "create_match Singles q4 =
                Return (Some (Match_init (length (matches q4)) (Opponents p1 p2) Singles),
                  q4\<lparr>players := AList.delete (name (heap q4 p2))
                                  (AList.delete (name (heap q4 p1)) (players q4)),
                     matches := matches q4 @
                       [Match_init (length (matches q4)) (Opponents p1 p2) Singles]\<rparr>)"
    by blast
  have perm: "mset (players_sorted q4) = mset (map snd (players q4))"
    by (simp add: players_sorted_def)
  from ps cm perm players_sorted_top [OF ps]
  show "\<exists>p1 p2 rest. players_sorted q4 = p1 # p2 # rest
            \<and> mset (players_sorted q4) = mset (map snd (players q4))
            \<and> create_match Singles q4 =
                Return (Some (Match_init (length (matches q4)) (Opponents p1 p2) Singles),
                  q4\<lparr>players := AList.delete (name (heap q4 p2))
                                  (AList.delete (name (heap q4 p1)) (players q4)),
                     matches := matches q4 @
                       [Match_init (length (matches q4)) (Opponents p1 p2) Singles]\<rparr>)
            \<and> (\<forall>r \<in> set (p2 # rest). elo_of (heap q4) r \<le> elo_of (heap q4) p1)
            \<and> (\<forall>r \<in> set rest. elo_of (heap q4) r \<le> elo_of (heap q4) p2)"
    by blast
qed

theorem singles_pairing_witness:
  "2 \<le> length (players deque_three) \<and> distinct (players deque_three)
   \<and> registry_ok registry_three \<and> 2 \<le> length (players registry_three)
   \<and> (\<exists>m q'. create_match_v1 Singles deque_three = Return (Some m, q'))
   \<and> (\<exists>m q'. create_match Singles registry_three = Return (Some m, q'))"
proof -
  have h1: "2 \<le> length (players deque_three)" and h2: "distinct (players deque_three)"
    by (simp_all add: deque_three_def)
  have h3: "registry_ok registry_three"
    by (simp add: registry_ok_def example_defs eval_defs)
  have h4: "2 \<le> length (players registry_three)"
    by (simp add: registry_three_def)
  from singles_pairing [OF h1 h2 h3 h4]
  have "(\<exists>m q'. create_match_v1 Singles deque_three = Return (Some m, q'))"
    and "(\<exists>m q'. create_match Singles registry_three = Return (Some m, q'))"
    by (auto simp: Let_def)
  with h1 h2 h3 h4 show ?thesis by blast
qed

section \<open>C6: doubles pairing on fewer than four players\<close>

lemma create_match_doubles_insufficient:
  "length (players q) < 4 \<Longrightarrow> create_match Doubles q = Return (None, q)"
  by (simp add: create_match_def)

lemma create_match_v1_insufficient:
  "length (players q) < 2 \<Longrightarrow> create_match_v1 mt q = Return (None, q)"
  by (simp add: create_match_v1_def)

text \<open>
  C6. On a pool of three players the doubles pairing of \<^verbatim>\<open>v1.py\<close> does not reject the
  request: its only guard is \<open>len(self.players) < 2\<close>, the four loops select nothing, and
  \<open>p1.availability = ...\<close> on \<open>None\<close> raises AttributeError. (\<^verbatim>\<open>v4.py\<close> has the guard
  \<open>len(self.players) < 4\<close> and returns \<open>None\<close> with the queue unchanged.)
\<close>

theorem doubles_three_players_v1:
  "create_match_v1 Doubles deque_three = Raise AttributeError
   \<and> create_match Doubles registry_three = Return (None, registry_three)"
  by (simp add: create_match_v1_def create_match_def quads_def example_defs eval_defs)

section \<open>C2: a singles outcome between two players rated 1200\<close>

lemma ten_powr_pos: "1 < (10::real) powr (1 / 25)"
  by simp

text \<open>
  C2. In \<^verbatim>\<open>v4.py\<close>, with A and B both rated 1200 and outcome 1, A's rating goes up by
  exactly 16. B's update runs after A's and reads A's new rating 1216, so B's expected
  score is \<open>1 / (1 + 10 ** 0.04)\<close>, not 0.5, and B's rating goes down by
  \<open>32 / (1 + 10 ** 0.04)\<close>, which is less than 16.
\<close>

theorem singles_outcome_1200_1200:
  "\<exists>q1 q2. create_match Singles registry_pair =
              Return (Some (Match_init 0 (Opponents 0 1) Singles), q1)
      \<and> elo_of (heap q1) 0 = 1200 \<and> elo_of (heap q1) 1 = 1200
      \<and> prompt_record_outcome 0 1 ''21-15'' q1 = Return q2
      \<and> elo_of (heap q2) 0 - elo_of (heap q1) 0 = 16
      \<and> elo_of (heap q1) 1 - elo_of (heap q2) 1 = 32 / (1 + 10 powr (1 / 25))
      \<and> elo_of (heap q1) 1 - elo_of (heap q2) 1 < 16"
proof -
  define x :: real where "x = 10 powr (1 / 25)"
  have x: "1 < x"
    unfolding x_def by (rule ten_powr_pos)
  then have "32 / (1 + x) < 16"
    by (simp add: pos_divide_less_eq)
  then have lt: "32 / (1 + (10::real) powr (1 / 25)) < 16"
    by (simp only: x_def)
  show ?thesis
    using lt
    by (simp add: create_match_def registry_pair_def prompt_record_outcome_def
        update_ratings_def singles_update_def calculate_elo_def elo_expectation_def
        elo_update'_def eval_defs)
qed

section \<open>C8: adding a player under a name that is present\<close>

text \<open>
  C8, as stated, fails: adding a player named A to the registry of A, B and C raises
  nothing. The new player (rated 1200) takes A's place in the registry, and the player
  rated 1000 that was stored under A is no longer in it.
\<close>

theorem add_existing_name_counterexample:
  "find_player ''A'' registry_three = Some 0
   \<and> find_player ''A'' (prompt_add_player ''A'' registry_three) = Some 3
   \<and> map snd (players (prompt_add_player ''A'' registry_three)) = [3, 1, 2]
   \<and> elo_of (heap (prompt_add_player ''A'' registry_three)) 3 = 1200
   \<and> elo_of (heap (prompt_add_player ''A'' registry_three)) 0 = 1000"
  by (simp add: find_player_def prompt_add_player_def alloc_def add_player_def
      example_defs eval_defs)

text \<open>
  C8, amended. \<open>add_player\<close> never fails. It stores the player under its name: a name that
  is present keeps its place in the registry and from then on maps to the new player, a
  new name is appended; all other names map as before. No player object is modified,
  the one replaced included, and the ledger is unchanged.
\<close>

theorem add_player_overwrites:
  "heap (add_player r q) = heap q
   \<and> matches (add_player r q) = matches q
   \<and> map_of (players (add_player r q)) = (map_of (players q))(name (heap q r) \<mapsto> r)
   \<and> find_player (name (heap q r)) (add_player r q) = Some r
   \<and> map fst (players (add_player r q)) =
       (if name (heap q r) \<in> set (map fst (players q)) then map fst (players q)
        else map fst (players q) @ [name (heap q r)])"
  by (simp add: add_player_def find_player_def update_conv' update_keys)

section \<open>C4: team assignment of the doubles pairing in \<^verbatim>\<open>v1.py\<close>\<close>

lemma best_quad_first_min:
  "best_quad h ps qs best = first_min (map (quad_candidate h ps) qs) best"
  by (induction h ps qs best rule: best_quad.induct) (simp_all add: Let_def)

lemma quads_iff: "(i, j, k, l) \<in> set (quads n) \<longleftrightarrow> i < j \<and> j < k \<and> k < l \<and> l < n"
proof
  assume "(i, j, k, l) \<in> set (quads n)"
  then show "i < j \<and> j < k \<and> k < l \<and> l < n"
    by (auto simp: quads_def)
next
  assume a: "i < j \<and> j < k \<and> k < l \<and> l < n"
  have "\<exists>x\<in>{0..<n}. \<exists>xa\<in>{Suc x..<n}. \<exists>xb\<in>{Suc xa..<n}.
          (i, j, k, l) \<in> (\<lambda>xc. (x, xa, xb, xc)) ` {Suc xb..<n}"
    by (rule bexI [of _ i], rule bexI [of _ j], rule bexI [of _ k]) (use a in auto)
  then show "(i, j, k, l) \<in> set (quads n)"
    by (simp add: quads_def)
qed

lemma quads_nonempty: "4 \<le> n \<Longrightarrow> quads n \<noteq> []"
proof -
  assume "4 \<le> n"
  then have "(0, 1, 2, 3) \<in> set (quads n)" by (simp add: quads_iff)
  then show ?thesis by auto
qed

lemma elo_of_set_unavailable [simp]: "elo_of (set_unavailable rs h) r = elo_of h r"
  by (induction rs arbitrary: h) (simp_all add: elo_of_def)

lemma deque_remove_all_four:
  assumes "distinct [p1, p2, p3, p4]" "set [p1, p2, p3, p4] \<subseteq> set ps"
  shows "deque_remove_all [p1, p2, p3, p4] ps =
           Return (remove1 p4 (remove1 p3 (remove1 p2 (remove1 p1 ps))))"
  using assms by (simp add: deque_remove_def)

lemma best_quad_spec:
  assumes "4 \<le> length ps"
  shows "\<exists>t i j k l. t < length (quads (length ps)) \<and> quads (length ps) ! t = (i, j, k, l)
     \<and> i < j \<and> j < k \<and> k < l \<and> l < length ps
     \<and> best_quad h ps (quads (length ps)) None =
         Some (split_diff h ps (i, j, k, l), ps ! i, ps ! j, ps ! k, ps ! l)
     \<and> (\<forall>u < length (quads (length ps)).
           split_diff h ps (i, j, k, l) \<le> split_diff h ps (quads (length ps) ! u))
     \<and> (\<forall>u < t. split_diff h ps (i, j, k, l) < split_diff h ps (quads (length ps) ! u))"
proof -
  let ?qs = "quads (length ps)"
  let ?cs = "map (quad_candidate h ps) ?qs"
  have ne: "?cs \<noteq> []" using quads_nonempty [OF assms] by simp
  from first_min_None [OF ne] obtain t where t: "t < length ?qs"
    and r: "first_min ?cs None = Some (?cs ! t)"
    and m: "\<forall>u < length ?cs. fst (?cs ! t) \<le> fst (?cs ! u)"
    and f: "\<forall>u < t. fst (?cs ! t) < fst (?cs ! u)" by auto
  obtain i j k l where q: "?qs ! t = (i, j, k, l)" by (metis prod_cases4)
  have fst_c: "\<And>u. u < length ?qs \<Longrightarrow> fst (?cs ! u) = split_diff h ps (?qs ! u)"
  proof -
    fix u assume "u < length ?qs"
    then have "?cs ! u = quad_candidate h ps (?qs ! u)" by simp
    then show "fst (?cs ! u) = split_diff h ps (?qs ! u)"
      by (cases "?qs ! u") simp
  qed
  have "(i, j, k, l) \<in> set ?qs" using t q nth_mem [of t ?qs] by simp
  then have ord: "i < j \<and> j < k \<and> k < l \<and> l < length ps" by (simp add: quads_iff)
  have ft: "fst (?cs ! t) = split_diff h ps (i, j, k, l)"
    using fst_c [OF t] q by (simp only:)
  have 1: "best_quad h ps ?qs None =
      Some (split_diff h ps (i, j, k, l), ps ! i, ps ! j, ps ! k, ps ! l)"
    using r t q by (simp add: best_quad_first_min)
  have 2: "\<forall>u < length ?qs. split_diff h ps (i, j, k, l) \<le> split_diff h ps (?qs ! u)"
  proof (intro allI impI)
    fix u assume u: "u < length ?qs"
    with m have "fst (?cs ! t) \<le> fst (?cs ! u)" by simp
    then show "split_diff h ps (i, j, k, l) \<le> split_diff h ps (?qs ! u)"
      by (simp only: ft fst_c [OF u])
  qed
  have 3: "\<forall>u < t. split_diff h ps (i, j, k, l) < split_diff h ps (?qs ! u)"
  proof (intro allI impI)
    fix u assume u: "u < t"
    then have ul: "u < length ?qs" using t by simp
    from f u have "fst (?cs ! t) < fst (?cs ! u)" by blast
    then show "split_diff h ps (i, j, k, l) < split_diff h ps (?qs ! u)"
      by (simp only: ft fst_c [OF ul])
  qed
  show ?thesis using t q ord 1 2 3 by blast
qed

lemma assign_teams_sorted:
  assumes "elo_of h p1 + elo_of h p2 \<le> elo_of h p3 + elo_of h p4"
    and "distinct [p1, p2, p3, p4]"
  shows "assign_teams h p1 p2 p3 p4 = Teams [p1, p3] [p2, p4]"
  using assms by (auto simp: assign_teams_def)

lemma create_match_v1_doubles:
  assumes len: "4 \<le> length (players q)" and dist: "distinct (players q)"
  shows "\<exists>t i j k l. t < length (quads (length (players q)))
     \<and> quads (length (players q)) ! t = (i, j, k, l)
     \<and> i < j \<and> j < k \<and> k < l \<and> l < length (players q)
     \<and> (let ps = players_sorted_v1 q;
            m = Match_init (length (matches q)) (Teams [ps ! i, ps ! k] [ps ! j, ps ! l]) Doubles
        in create_match_v1 Doubles q =
             Return (Some m,
               q\<lparr>heap := set_unavailable [ps ! i, ps ! j, ps ! k, ps ! l] (heap q),
                 players := remove1 (ps ! l) (remove1 (ps ! k) (remove1 (ps ! j)
                              (remove1 (ps ! i) (players q)))),
                 matches := matches q @ [m]\<rparr>)
         \<and> elo_of (heap q) (ps ! i) + elo_of (heap q) (ps ! j)
             \<le> elo_of (heap q) (ps ! k) + elo_of (heap q) (ps ! l)
         \<and> (\<forall>u < length (quads (length ps)).
               split_diff (heap q) ps (i, j, k, l)
                 \<le> split_diff (heap q) ps (quads (length ps) ! u))
         \<and> (\<forall>u < t. split_diff (heap q) ps (i, j, k, l)
                        < split_diff (heap q) ps (quads (length ps) ! u)))"
proof -
  define ps where "ps = players_sorted_v1 q"
  have lps: "length ps = length (players q)" and sps: "set ps = set (players q)"
    and dps: "distinct ps" and sorted: "sorted (map (elo_of (heap q)) ps)"
    using dist by (simp_all add: ps_def players_sorted_v1_def)
  from best_quad_spec [of ps "heap q"] len lps obtain t i j k l
    where t: "t < length (quads (length ps))" and q: "quads (length ps) ! t = (i, j, k, l)"
      and ord: "i < j" "j < k" "k < l" "l < length ps"
      and bq: "best_quad (heap q) ps (quads (length ps)) None =
                 Some (split_diff (heap q) ps (i, j, k, l), ps ! i, ps ! j, ps ! k, ps ! l)"
      and m: "\<forall>u < length (quads (length ps)).
                split_diff (heap q) ps (i, j, k, l) \<le> split_diff (heap q) ps (quads (length ps) ! u)"
      and f: "\<forall>u < t. split_diff (heap q) ps (i, j, k, l)
                < split_diff (heap q) ps (quads (length ps) ! u)"
    by (auto simp del: split_diff.simps)
  have d4: "distinct [ps ! i, ps ! j, ps ! k, ps ! l]"
    using dps ord by (simp add: nth_eq_iff_index_eq)
  have s4: "set [ps ! i, ps ! j, ps ! k, ps ! l] \<subseteq> set (players q)"
    using ord sps nth_mem [of i ps] nth_mem [of j ps] nth_mem [of k ps] nth_mem [of l ps]
    by auto
  have "elo_of (heap q) (ps ! i) \<le> elo_of (heap q) (ps ! k)"
    using sorted_nth_mono [OF sorted, of i k] ord by simp
  moreover have "elo_of (heap q) (ps ! j) \<le> elo_of (heap q) (ps ! l)"
    using sorted_nth_mono [OF sorted, of j l] ord by simp
  ultimately have le: "elo_of (heap q) (ps ! i) + elo_of (heap q) (ps ! j)
             \<le> elo_of (heap q) (ps ! k) + elo_of (heap q) (ps ! l)"
    by simp
  have at: "assign_teams (set_unavailable [ps ! i, ps ! j, ps ! k, ps ! l] (heap q))
              (ps ! i) (ps ! j) (ps ! k) (ps ! l) = Teams [ps ! i, ps ! k] [ps ! j, ps ! l]"
    by (rule assign_teams_sorted) (use le d4 in \<open>simp_all del: set_unavailable.simps\<close>)
  have cm: "create_match_v1 Doubles q =
      Return (Some (Match_init (length (matches q)) (Teams [ps ! i, ps ! k] [ps ! j, ps ! l]) Doubles),
        q\<lparr>heap := set_unavailable [ps ! i, ps ! j, ps ! k, ps ! l] (heap q),
          players := remove1 (ps ! l) (remove1 (ps ! k) (remove1 (ps ! j)
                       (remove1 (ps ! i) (players q)))),
          matches := matches q @
            [Match_init (length (matches q)) (Teams [ps ! i, ps ! k] [ps ! j, ps ! l]) Doubles]\<rparr>)"
    using len bq at deque_remove_all_four [OF d4 s4]
    by (simp add: create_match_v1_def ps_def [symmetric] Let_def
        del: deque_remove_all.simps set_unavailable.simps split_diff.simps)
  show ?thesis
    using t q ord lps cm le m f
    by (intro exI [of _ t] exI [of _ i] exI [of _ j] exI [of _ k] exI [of _ l])
       (simp add: ps_def [symmetric] Let_def del: split_diff.simps set_unavailable.simps)
qed

text \<open>
  C4, as stated, fails. On the pool rated 1000, 1100, 1200 and 1300 the fixed split is
  1000 + 1100 against 1200 + 1300; the pair of strictly greater sum is the one rated 1200
  and 1300, yet team1 is the players rated 1000 and 1200 and team2 those rated 1100 and
  1300. On a pool of four players all rated 1000 the two sums are equal, and team1 is the
  first and the third of the four, not the first-split pair.
\<close>

theorem doubles_team_assignment_counterexample:
  "(\<exists>team2 q'. create_match_v1 Doubles deque_four =
        Return (Some (Match_init 0 (Teams [0, 2] team2) Doubles), q')
      \<and> set team2 = {1, 3}
      \<and> players_sorted_v1 deque_four = [0, 1, 2, 3]
      \<and> elo_of (heap deque_four) 0 + elo_of (heap deque_four) 1
          < elo_of (heap deque_four) 2 + elo_of (heap deque_four) 3)
   \<and> (\<exists>team2 q'. create_match_v1 Doubles deque_four_equal =
        Return (Some (Match_init 0 (Teams [0, 2] team2) Doubles), q')
      \<and> set team2 = {1, 3}
      \<and> players_sorted_v1 deque_four_equal = [0, 1, 2, 3]
      \<and> elo_of (heap deque_four_equal) 0 + elo_of (heap deque_four_equal) 1
          = elo_of (heap deque_four_equal) 2 + elo_of (heap deque_four_equal) 3)"
  by (simp add: create_match_v1_def quads_def assign_teams_def deque_four_def
      deque_four_equal_def eval_defs insert_commute)

text \<open>
  C4, amended. In \<^verbatim>\<open>v1.py\<close>, for every pool of at least 4 distinct players, doubles
  pairing chooses sorted positions \<open>i < j < k < l\<close> whose fixed split \<open>{i, j}\<close> against
  \<open>{k, l}\<close> has the least sum difference, the first such four in loop order. Because the
  pool is sorted ascending, the sum of the first-split pair never exceeds the sum of the
  other pair, so the comparison of the two sums always takes its second branch: team1
  is the players at positions \<open>i\<close> and \<open>k\<close>, in that order, and team2 consists of the
  players at positions \<open>j\<close> and \<open>l\<close>, whether the sums are equal or not. The rating sum
  of team1 never exceeds that of team2.
\<close>

theorem doubles_team_assignment:
  assumes "4 \<le> length (players q)" and "distinct (players q)"
  shows "\<exists>t i j k l team2 q'. t < length (quads (length (players q)))
     \<and> quads (length (players q)) ! t = (i, j, k, l)
     \<and> i < j \<and> j < k \<and> k < l \<and> l < length (players q)
     \<and> (let ps = players_sorted_v1 q in
          create_match_v1 Doubles q =
            Return (Some (Match_init (length (matches q)) (Teams [ps ! i, ps ! k] team2) Doubles),
                    q')
        \<and> set team2 = {ps ! j, ps ! l} \<and> length team2 = 2
        \<and> elo_of (heap q) (ps ! i) + elo_of (heap q) (ps ! j)
            \<le> elo_of (heap q) (ps ! k) + elo_of (heap q) (ps ! l)
        \<and> elo_of (heap q) (ps ! i) + elo_of (heap q) (ps ! k)
            \<le> elo_of (heap q) (ps ! j) + elo_of (heap q) (ps ! l)
        \<and> (\<forall>u < length (quads (length ps)).
              split_diff (heap q) ps (i, j, k, l)
                \<le> split_diff (heap q) ps (quads (length ps) ! u))
        \<and> (\<forall>u < t. split_diff (heap q) ps (i, j, k, l)
                       < split_diff (heap q) ps (quads (length ps) ! u)))"
proof -
  define ps where "ps = players_sorted_v1 q"
  have lps: "length ps = length (players q)"
    and sorted: "sorted (map (elo_of (heap q)) ps)"
    by (simp_all add: ps_def players_sorted_v1_def)
  from create_match_v1_doubles [OF assms] obtain t i j k l
    where t: "t < length (quads (length (players q)))"
      and q: "quads (length (players q)) ! t = (i, j, k, l)"
      and ord: "i < j" "j < k" "k < l" "l < length (players q)"
      and cm: "create_match_v1 Doubles q =
          Return (Some (Match_init (length (matches q)) (Teams [ps ! i, ps ! k] [ps ! j, ps ! l])
                          Doubles),
            q\<lparr>heap := set_unavailable [ps ! i, ps ! j, ps ! k, ps ! l] (heap q),
              players := remove1 (ps ! l) (remove1 (ps ! k) (remove1 (ps ! j)
                           (remove1 (ps ! i) (players q)))),
              matches := matches q @
                [Match_init (length (matches q)) (Teams [ps ! i, ps ! k] [ps ! j, ps ! l])
                   Doubles]\<rparr>)"
      and le: "elo_of (heap q) (ps ! i) + elo_of (heap q) (ps ! j)
                 \<le> elo_of (heap q) (ps ! k) + elo_of (heap q) (ps ! l)"
      and m: "\<forall>u < length (quads (length ps)).
                split_diff (heap q) ps (i, j, k, l) \<le> split_diff (heap q) ps (quads (length ps) ! u)"
      and f: "\<forall>u < t. split_diff (heap q) ps (i, j, k, l)
                < split_diff (heap q) ps (quads (length ps) ! u)"
    unfolding Let_def ps_def [symmetric] by blast
  have "elo_of (heap q) (ps ! i) \<le> elo_of (heap q) (ps ! j)"
    using sorted_nth_mono [OF sorted, of i j] ord lps by simp
  moreover have "elo_of (heap q) (ps ! k) \<le> elo_of (heap q) (ps ! l)"
    using sorted_nth_mono [OF sorted, of k l] ord lps by simp
  ultimately have le2: "elo_of (heap q) (ps ! i) + elo_of (heap q) (ps ! k)
             \<le> elo_of (heap q) (ps ! j) + elo_of (heap q) (ps ! l)"
    by simp
  show ?thesis
    unfolding Let_def ps_def [symmetric]
    using t q ord cm le le2 m f
    by (intro exI [of _ t] exI [of _ i] exI [of _ j] exI [of _ k] exI [of _ l]
          exI [of _ "[ps ! j, ps ! l]"] exI conjI) (assumption | simp)+
qed

theorem doubles_team_assignment_witness:
  "4 \<le> length (players deque_four) \<and> distinct (players deque_four)
   \<and> (\<exists>p1 p3 team2 q'. create_match_v1 Doubles deque_four =
          Return (Some (Match_init (length (matches deque_four)) (Teams [p1, p3] team2) Doubles), q')
        \<and> length team2 = 2)"
proof -
  have h1: "4 \<le> length (players deque_four)" and h2: "distinct (players deque_four)"
    by (simp_all add: deque_four_def)
  from doubles_team_assignment [OF h1 h2]
  have "\<exists>p1 p3 team2 q'. create_match_v1 Doubles deque_four =
          Return (Some (Match_init (length (matches deque_four)) (Teams [p1, p3] team2) Doubles), q')
        \<and> length team2 = 2"
    unfolding Let_def by blast
  with h1 h2 show ?thesis by blast
qed

section \<open>Rounding to binary64\<close>

























section \<open>C3: do the two rating changes of a contest sum to zero\<close>




section \<open>Doubles pairing in \<^verbatim>\<open>v4.py\<close>\<close>



section \<open>What recording an outcome changes of a player\<close>

lemma name_calculate_elo [simp]: "name (calculate_elo self opponent oc) = name self"
  by (simp add: calculate_elo_def Let_def)

lemma availability_calculate_elo [simp]: "availability (calculate_elo self opponent oc)"
  by (simp add: calculate_elo_def Let_def)

lemma name_singles_update [simp]: "name (singles_update p1 p2 oc h p) = name (h p)"
  by (simp add: singles_update_def Let_def)


lemma name_team_update [simp]: "name (team_update t opponent oc h p) = name (h p)"
  by (induction t arbitrary: h) simp_all


lemma name_doubles_update [simp]: "name (doubles_update t1 t2 oc h p) = name (h p)"
  by (simp add: doubles_update_def Let_def)




section \<open>C10: selected players leave the registry\<close>



section \<open>C5: the ratings after a doubles outcome\<close>

lemma team_update_apply:
  "distinct t \<Longrightarrow>
   team_update t opponent oc h p = (if p \<in> set t then calculate_elo (h p) opponent oc else h p)"
  by (induction t arbitrary: h) auto

lemma doubles_update_apply:
  assumes "distinct (t1 @ t2)"
  shows "doubles_update t1 t2 oc h p =
     (if p \<in> set t1
      then calculate_elo (h p)
             (Player_init (IdStr ''temp'') ''temp'' (PyFloat (sum_list (map (elo_of h) t2) / 2))) oc
      else if p \<in> set t2
      then calculate_elo (h p)
             (Player_init (IdStr ''temp'') ''temp'' (PyFloat (sum_list (map (elo_of h) t1) / 2)))
             (1 - oc)
      else h p)"
  using assms by (auto simp: doubles_update_def Let_def team_update_apply)

lemma elo_calculate_elo:
  "elo (calculate_elo self (Player_init i n (PyFloat x)) oc) =
     PyFloat (elo_update' 32 (num_val (elo self)) (elo_expectation (num_val (elo self)) x)
                (of_int oc))"
  by (simp add: calculate_elo_def Let_def Player_init_def)

lemma record_outcome_v1_doubles:
  assumes "list_position (length (matches q)) mid = Return i"
    and "match_players (matches q ! i) = Teams t1 t2"
  shows "prompt_record_outcome_v1 mid oc q = Raise AttributeError"
  using assms by (simp add: prompt_record_outcome_v1_def record_outcome_v1_def)

lemma prompt_record_outcome_doubles:
  assumes mid: "0 \<le> mid" "mid < int (length (matches q))"
    and mt: "match_type (matches q ! nat mid) = Doubles"
    and mp: "match_players (matches q ! nat mid) = Teams t1 t2"
  shows "prompt_record_outcome mid oc sc q =
     Return (q\<lparr>heap := doubles_update t1 t2 oc (heap q),
               matches := (matches q)[nat mid := (matches q ! nat mid)\<lparr>match_score := Some sc\<rparr>]\<rparr>)"
  using assms by (simp add: prompt_record_outcome_def update_ratings_def Let_def)

text \<open>
  C5. In \<^verbatim>\<open>v4.py\<close> (and \<^verbatim>\<open>v3.py\<close>), recording outcome \<open>o\<close> of a doubles match of \<open>a\<close>
  and \<open>b\<close> against \<open>c\<close> and \<open>d\<close> gives every player the update of the own pre-match
  rating against one virtual opponent, rated the average of the two opposing players'
  pre-match ratings, with actual value \<open>o\<close> for \<open>a\<close> and \<open>b\<close> and \<open>1 - o\<close> for \<open>c\<close> and \<open>d\<close>;
  two teammates get different expected values only if their own ratings differ. In
  \<^verbatim>\<open>v1.py\<close> the same block is never reached for a doubles match: \<open>match.record_outcome\<close>
  runs first and raises AttributeError on the first team, a list without
  \<open>match_history\<close>, so no rating is updated.
\<close>

theorem doubles_outcome:
  assumes mid: "0 \<le> mid" "mid < int (length (matches q))"
    and mt: "match_type (matches q ! nat mid) = Doubles"
    and mp: "match_players (matches q ! nat mid) = Teams [a, b] [c, d]"
    and dist: "distinct [a, b, c, d]"
    and v1: "list_position (length (matches q1)) mid1 = Return i"
      "match_players (matches q1 ! i) = Teams t1 t2"
  shows "(\<exists>q'. prompt_record_outcome mid oc sc q = Return q'
       \<and> (let h = heap q;
               team1_avg_elo = (elo_of h a + elo_of h b) / 2;
               team2_avg_elo = (elo_of h c + elo_of h d) / 2;
               new = (\<lambda>p opponent_elo actual.
                        PyFloat (elo_update' 32 (elo_of h p)
                                   (elo_expectation (elo_of h p) opponent_elo) (of_int actual)))
           in elo (heap q' a) = new a team2_avg_elo oc
            \<and> elo (heap q' b) = new b team2_avg_elo oc
            \<and> elo (heap q' c) = new c team1_avg_elo (1 - oc)
            \<and> elo (heap q' d) = new d team1_avg_elo (1 - oc)
            \<and> (elo_expectation (elo_of h a) team2_avg_elo
                  \<noteq> elo_expectation (elo_of h b) team2_avg_elo \<longrightarrow> elo_of h a \<noteq> elo_of h b)
            \<and> (elo_expectation (elo_of h c) team1_avg_elo
                  \<noteq> elo_expectation (elo_of h d) team1_avg_elo \<longrightarrow> elo_of h c \<noteq> elo_of h d)))
     \<and> prompt_record_outcome_v1 mid1 oc q1 = Raise AttributeError"
proof -
  have d: "distinct ([a, b] @ [c, d])"
    using dist by simp
  have pr: "prompt_record_outcome mid oc sc q =
     Return (q\<lparr>heap := doubles_update [a, b] [c, d] oc (heap q),
               matches := (matches q)[nat mid := (matches q ! nat mid)\<lparr>match_score := Some sc\<rparr>]\<rparr>)"
    by (rule prompt_record_outcome_doubles [OF mid mt mp])
  have e: "elo (doubles_update [a, b] [c, d] oc (heap q) a) =
        PyFloat (elo_update' 32 (elo_of (heap q) a)
          (elo_expectation (elo_of (heap q) a) ((elo_of (heap q) c + elo_of (heap q) d) / 2))
          (of_int oc))"
    "elo (doubles_update [a, b] [c, d] oc (heap q) b) =
        PyFloat (elo_update' 32 (elo_of (heap q) b)
          (elo_expectation (elo_of (heap q) b) ((elo_of (heap q) c + elo_of (heap q) d) / 2))
          (of_int oc))"
    "elo (doubles_update [a, b] [c, d] oc (heap q) c) =
        PyFloat (elo_update' 32 (elo_of (heap q) c)
          (elo_expectation (elo_of (heap q) c) ((elo_of (heap q) a + elo_of (heap q) b) / 2))
          (of_int (1 - oc)))"
    "elo (doubles_update [a, b] [c, d] oc (heap q) d) =
        PyFloat (elo_update' 32 (elo_of (heap q) d)
          (elo_expectation (elo_of (heap q) d) ((elo_of (heap q) a + elo_of (heap q) b) / 2))
          (of_int (1 - oc)))"
    using dist
    by (simp_all add: doubles_update_apply [OF d] elo_calculate_elo elo_of_def)
  have "prompt_record_outcome_v1 mid1 oc q1 = Raise AttributeError"
    by (rule record_outcome_v1_doubles [OF v1])
  then show ?thesis
    unfolding pr Let_def using e by auto
qed

theorem doubles_outcome_witness:
  "create_match Doubles registry_four =
     Return (Some (Match_init 0 (Teams [3, 2] [1, 0]) Doubles), registry_four_matched)
   \<and> (\<exists>q'. prompt_record_outcome 0 1 ''21-15'' registry_four_matched = Return q'
        \<and> elo (heap q' 3) =
            PyFloat (elo_update' 32 1300 (elo_expectation 1300 ((1100 + 1000) / 2)) 1)
        \<and> elo (heap q' 0) =
            PyFloat (elo_update' 32 1000 (elo_expectation 1000 ((1300 + 1200) / 2)) 0))
   \<and> (\<exists>m q1. create_match_v1 Doubles deque_four = Return (Some m, q1)
        \<and> prompt_record_outcome_v1 0 1 q1 = Raise AttributeError)"
proof -
  define q1 where "q1 = deque_four\<lparr>heap := set_unavailable [0, 1, 2, 3] (heap deque_four),
      players := [], matches := [Match_init 0 (Teams [0, 2] [1, 3]) Doubles]\<rparr>"
  have c4: "create_match Doubles registry_four =
     Return (Some (Match_init 0 (Teams [3, 2] [1, 0]) Doubles), registry_four_matched)"
    by (simp add: create_match_def registry_four_def registry_four_matched_def eval_defs)
  have c1: "create_match_v1 Doubles deque_four =
     Return (Some (Match_init 0 (Teams [0, 2] [1, 3]) Doubles), q1)"
    by (simp add: q1_def create_match_v1_def quads_def assign_teams_def deque_four_def eval_defs)
  have h: "(0::int) \<le> 0" "0 < int (length (matches registry_four_matched))"
    "match_type (matches registry_four_matched ! nat 0) = Doubles"
    "match_players (matches registry_four_matched ! nat 0) = Teams [3, 2] [1, 0]"
    "distinct [3, 2, 1, 0 :: nat]"
    "list_position (length (matches q1)) 0 = Return 0"
    "match_players (matches q1 ! 0) = Teams [0, 2] [1, 3]"
    by (simp_all add: registry_four_matched_def registry_four_def q1_def deque_four_def
        Match_init_def list_position_def)
  have v: "elo_of (heap registry_four_matched) 0 = 1000"
    "elo_of (heap registry_four_matched) 1 = 1100"
    "elo_of (heap registry_four_matched) (Suc 0) = 1100"
    "elo_of (heap registry_four_matched) 2 = 1200"
    "elo_of (heap registry_four_matched) 3 = 1300"
    by (simp_all add: registry_four_matched_def registry_four_def eval_defs)
  from doubles_outcome [OF h, where oc = 1 and sc = "''21-15''"]
  have "(\<exists>q'. prompt_record_outcome 0 1 ''21-15'' registry_four_matched = Return q'
        \<and> elo (heap q' 3) =
            PyFloat (elo_update' 32 1300 (elo_expectation 1300 ((1100 + 1000) / 2)) 1)
        \<and> elo (heap q' 0) =
            PyFloat (elo_update' 32 1000 (elo_expectation 1000 ((1300 + 1200) / 2)) 0))
     \<and> prompt_record_outcome_v1 0 1 q1 = Raise AttributeError"
    by (auto simp: Let_def v)
  with c4 c1 show ?thesis
    by blast
qed

section \<open>The availability flag in \<^verbatim>\<open>v1.py\<close>\<close>





section \<open>C7: the availability flag of a selected player\<close>




section \<open>C9: saving the players and loading them again\<close>


end
